theory Spec2Isabelle
  imports Main "HOL-Library.Sublist"
begin

section \<open>Python values and string primitives\<close>

text \<open>
  The pipeline of \<^verbatim>\<open>scripts/data-pipeline/1_extract_wdpa.py\<close> reads the rows of a
  CSV file, keeps the World Heritage rows grouped by name, matches the group names against
  the UNESCO registry and writes two JSON files.

  A Python \<^verbatim>\<open>str\<close> is modelled by the HOL \<open>string\<close> of its UTF-8 encoding: the
  characters below 128 are the ASCII code points, the others are the bytes of the code
  points beyond ASCII. Equality of two strings, \<^verbatim>\<open>x in y\<close> and the split at an ASCII
  separator are the same on the encodings as on the strings.
  The values that \<^verbatim>\<open>row.get\<close> gives are \<^verbatim>\<open>None\<close>, a \<^verbatim>\<open>str\<close>, or the
  \<^verbatim>\<open>int\<close> default of \<^verbatim>\<open>row.get('REP_AREA', 0)\<close>.
\<close>

datatype py_error =
    FileNotFoundError
  | ValueError
  | TypeError
  | AttributeError
  | IndexError
  | OverflowError

datatype pyval = PyNone | PyStr string | PyInt int

text \<open>Truth value of an object, as tested by \<^verbatim>\<open>if x\<close> and \<^verbatim>\<open>x or y\<close>.\<close>

fun truthy :: "pyval \<Rightarrow> bool" where
  "truthy PyNone = False"
| "truthy (PyStr s) = (s \<noteq> [])"
| "truthy (PyInt n) = (n \<noteq> 0)"

definition py_or :: "pyval \<Rightarrow> pyval \<Rightarrow> pyval" where
  "py_or x y = (if truthy x then x else y)"

text \<open>\<^verbatim>\<open>needle in haystack\<close> on two strings: substring containment.\<close>

fun str_contains :: "string \<Rightarrow> string \<Rightarrow> bool" where
  "str_contains needle [] = (needle = [])"
| "str_contains needle (c # cs) = (prefix needle (c # cs) \<or> str_contains needle cs)"

text \<open>
  \<^verbatim>\<open>needle in x\<close> for a string needle and any object \<open>x\<close>: \<^verbatim>\<open>None\<close> and an
  \<^verbatim>\<open>int\<close> are not iterable.
\<close>

fun py_in :: "string \<Rightarrow> pyval \<Rightarrow> py_error + bool" where
  "py_in needle (PyStr s) = Inr (str_contains needle s)"
| "py_in needle PyNone = Inl TypeError"
| "py_in needle (PyInt n) = Inl TypeError"

definition lower_char :: "char \<Rightarrow> char" where
  "lower_char c =
     (if 65 \<le> (of_char c :: nat) \<and> (of_char c :: nat) \<le> 90
      then char_of ((of_char c :: nat) + 32) else c)"

text \<open>
  What \<^verbatim>\<open>str.lower\<close>, \<^verbatim>\<open>str.split()\<close>, \<^verbatim>\<open>str.strip()\<close> and \<^verbatim>\<open>float\<close>
  do with a string that is not ASCII is decided by the Unicode character database (the
  cased code points and their mappings, the white space, the decimal digits). The
  database is not part of the repository: it is a parameter \<open>U\<close> of the model, and every
  theorem holds for every \<open>U\<close>. On an ASCII string the four functions are written out.
\<close>

record unicode_db =
  lower_u :: "string \<Rightarrow> string"
  split_u :: "string \<Rightarrow> string list"
  strip_u :: "string \<Rightarrow> string"
  float_u :: "string \<Rightarrow> bool"

definition is_ascii :: "string \<Rightarrow> bool" where
  "is_ascii s = list_all (\<lambda>c. (of_char c :: nat) < 128) s"

text \<open>
  \<^verbatim>\<open>s.lower()\<close>: on ASCII text the letters A to Z are the cased characters.
  \<^verbatim>\<open>str.lower\<close> maps a code point to one code point or more, so the result for a
  string that is not empty is not empty; a database that says otherwise is not followed.
\<close>

definition lower :: "unicode_db \<Rightarrow> string \<Rightarrow> string" where
  "lower U s =
     (if is_ascii s then map lower_char s
      else if lower_u U s = [] then s else lower_u U s)"

text \<open>The ASCII characters that \<^verbatim>\<open>str.split()\<close> and \<^verbatim>\<open>str.strip()\<close> take as white space.\<close>

definition isspace :: "char \<Rightarrow> bool" where
  "isspace c =
     ((9 \<le> (of_char c :: nat) \<and> (of_char c :: nat) \<le> 13)
      \<or> (28 \<le> (of_char c :: nat) \<and> (of_char c :: nat) \<le> 32))"

text \<open>\<^verbatim>\<open>s.split()\<close>: the maximal runs of characters that are not white space.\<close>

fun split_ws :: "string \<Rightarrow> string \<Rightarrow> string list" where
  "split_ws cur [] = (if cur = [] then [] else [cur])"
| "split_ws cur (c # cs) =
     (if isspace c then (if cur = [] then split_ws [] cs else cur # split_ws [] cs)
      else split_ws (cur @ [c]) cs)"

definition py_split :: "unicode_db \<Rightarrow> string \<Rightarrow> string list" where
  "py_split U s = (if is_ascii s then split_ws [] s else split_u U s)"

text \<open>\<^verbatim>\<open>s.split(sep)\<close> for a separator of one character: empty fields are kept.\<close>

fun split_on :: "char \<Rightarrow> string \<Rightarrow> string \<Rightarrow> string list" where
  "split_on sep cur [] = [cur]"
| "split_on sep cur (c # cs) =
     (if c = sep then cur # split_on sep [] cs else split_on sep (cur @ [c]) cs)"

definition strip :: "unicode_db \<Rightarrow> string \<Rightarrow> string" where
  "strip U s =
     (if is_ascii s then rev (dropWhile isspace (rev (dropWhile isspace s))) else strip_u U s)"

subsection \<open>The built-in \<^verbatim>\<open>float\<close>\<close>

text \<open>
  Binary floating point is not modelled: a float is represented by the argument the
  built-in \<^verbatim>\<open>float\<close> accepted, so \<open>Float_of_int 0\<close> is the value \<^verbatim>\<open>float(0)\<close>,
  that is \<^verbatim>\<open>0.0\<close>. What is modelled is which arguments \<^verbatim>\<open>float\<close> accepts:
  an ASCII string is accepted when, the white space of C stripped, it follows the grammar
  of the language reference:
  \<^verbatim>\<open>floatvalue ::= [sign] (floatnumber | "inf" | "infinity" | "nan")\<close>,
  \<^verbatim>\<open>floatnumber ::= number [exponent]\<close>,
  \<^verbatim>\<open>number ::= [digitpart] "." digitpart | digitpart ["."]\<close>,
  \<^verbatim>\<open>exponent ::= ("e" | "E") [sign] digitpart\<close>,
  \<^verbatim>\<open>digitpart ::= digit (["_"] digit)*\<close>.
\<close>

datatype pyfloat = Float_of_int int | Float_of_str string

definition isdigit :: "char \<Rightarrow> bool" where
  "isdigit c = (48 \<le> (of_char c :: nat) \<and> (of_char c :: nat) \<le> 57)"

definition c_isspace :: "char \<Rightarrow> bool" where
  "c_isspace c = ((9 \<le> (of_char c :: nat) \<and> (of_char c :: nat) \<le> 13) \<or> c = CHR '' '')"

fun digit_tail :: "string \<Rightarrow> string" where
  "digit_tail [] = []"
| "digit_tail [c] = (if isdigit c then [] else [c])"
| "digit_tail (c # d # s) =
     (if isdigit c then digit_tail (d # s)
      else if c = CHR ''_'' \<and> isdigit d then digit_tail s
      else c # d # s)"

definition digitpart :: "string \<Rightarrow> string option" where
  "digitpart s =
     (case s of [] \<Rightarrow> None
      | c # r \<Rightarrow> if isdigit c then Some (digit_tail r) else None)"

definition number :: "string \<Rightarrow> string option" where
  "number s =
     (case digitpart s of
        Some r \<Rightarrow>
          (case r of
             [] \<Rightarrow> Some r
           | c # r' \<Rightarrow>
               if c = CHR ''.'' then (case digitpart r' of Some r'' \<Rightarrow> Some r'' | None \<Rightarrow> Some r')
               else Some r)
      | None \<Rightarrow>
          (case s of
             [] \<Rightarrow> None
           | c # r' \<Rightarrow> if c = CHR ''.'' then digitpart r' else None))"

definition is_sign :: "char \<Rightarrow> bool" where
  "is_sign c = (c = CHR ''+'' \<or> c = CHR ''-'')"

definition exponent :: "string \<Rightarrow> string option" where
  "exponent s =
     (case s of
        [] \<Rightarrow> None
      | c # r \<Rightarrow>
          if c = CHR ''e'' \<or> c = CHR ''E''
          then (case r of
                  [] \<Rightarrow> None
                | g # r' \<Rightarrow> if is_sign g then digitpart r' else digitpart r)
          else None)"

definition floatnumber :: "string \<Rightarrow> bool" where
  "floatnumber s =
     (case number s of None \<Rightarrow> False | Some r \<Rightarrow> r = [] \<or> exponent r = Some [])"

definition absfloatvalue :: "string \<Rightarrow> bool" where
  "absfloatvalue s =
     (floatnumber s \<or> map lower_char s = ''inf'' \<or> map lower_char s = ''infinity''
      \<or> map lower_char s = ''nan'')"

definition floatvalue :: "string \<Rightarrow> bool" where
  "floatvalue s =
     (case s of [] \<Rightarrow> False
      | c # r \<Rightarrow> if is_sign c then absfloatvalue r else absfloatvalue s)"

definition is_float_literal :: "unicode_db \<Rightarrow> string \<Rightarrow> bool" where
  "is_float_literal U s =
     (if is_ascii s then floatvalue (rev (dropWhile c_isspace (rev (dropWhile c_isspace s))))
      else float_u U s)"

text \<open>
  \<^verbatim>\<open>float(x)\<close>: \<^verbatim>\<open>ValueError\<close> on a string that is no float literal,
  \<^verbatim>\<open>TypeError\<close> on \<^verbatim>\<open>None\<close>, \<^verbatim>\<open>OverflowError\<close> on an integer that rounds
  beyond the largest double.
\<close>

fun py_float :: "unicode_db \<Rightarrow> pyval \<Rightarrow> py_error + pyfloat" where
  "py_float U (PyStr s) = (if is_float_literal U s then Inr (Float_of_str s) else Inl ValueError)"
| "py_float U (PyInt n) =
     (if \<bar>n\<bar> < 2 ^ 1024 - 2 ^ 970 then Inr (Float_of_int n) else Inl OverflowError)"
| "py_float U PyNone = Inl TypeError"

section \<open>Data model\<close>

text \<open>
  A row of \<^verbatim>\<open>csv.DictReader\<close>: a column of the header maps to the string of the
  field (\<open>Text\<close>), or to \<^verbatim>\<open>None\<close> when the line is shorter than the header
  (\<open>NoValue\<close>); a column that is not in the header is not a key. \<open>row_get\<close> is
  \<^verbatim>\<open>row.get(k, d)\<close>.
\<close>

datatype cell = NoValue | Text string

type_synonym row = "string \<rightharpoonup> cell"

definition row_get :: "row \<Rightarrow> string \<Rightarrow> pyval \<Rightarrow> pyval" where
  "row_get r k d =
     (case r k of None \<Rightarrow> d | Some NoValue \<Rightarrow> PyNone | Some (Text s) \<Rightarrow> PyStr s)"

record component =
  wdpa_id :: pyval
  wdpa_pid :: pyval
  name :: pyval
  name_orig :: pyval
  designation :: pyval
  iucn_category :: pyval
  status :: pyval
  status_year :: pyval
  area_km2 :: pyfloat
  iso_codes :: "string list"
  marine :: bool

text \<open>
  A Python \<^verbatim>\<open>dict\<close> keeps its keys in insertion order: an association list with
  distinct keys. \<open>dict_set\<close> is \<^verbatim>\<open>d[k] = v\<close>: a present key keeps its place and
  gets the new value, a new key goes to the end.
\<close>

type_synonym ('k, 'v) dict = "('k \<times> 'v) list"

fun dict_set :: "'k \<Rightarrow> 'v \<Rightarrow> ('k, 'v) dict \<Rightarrow> ('k, 'v) dict" where
  "dict_set k v [] = [(k, v)]"
| "dict_set k v ((k', v') # d) = (if k' = k then (k', v) # d else (k', v') # dict_set k v d)"

definition dict_get :: "('k, 'v) dict \<Rightarrow> 'k \<Rightarrow> 'v option" where
  "dict_get d k = map_of d k"

text \<open>\<^verbatim>\<open>whs_sites[site_name].append(component)\<close> on a \<^verbatim>\<open>defaultdict(list)\<close>.\<close>

fun group_append :: "'k \<Rightarrow> 'v \<Rightarrow> ('k, 'v list) dict \<Rightarrow> ('k, 'v list) dict" where
  "group_append k v [] = [(k, [v])]"
| "group_append k v ((k', vs) # d) =
     (if k' = k then (k', vs @ [v]) # d else (k', vs) # group_append k v d)"

type_synonym site_groups = "(pyval, component list) dict"

record site =
  idNumber :: string
  en_name :: string
  isoCodes :: "string list"

section \<open>The extractor\<close>

text \<open>The marker of line 69.\<close>

definition marker :: string where
  "marker = ''World Heritage''"

text \<open>The ISO codes of line 85.\<close>

definition extract_iso :: "unicode_db \<Rightarrow> row \<Rightarrow> py_error + string list" where
  "extract_iso U r =
     (if truthy (row_get r ''ISO3'' PyNone)
      then (case row_get r ''ISO3'' (PyStr []) of
              PyStr s \<Rightarrow> Inr (map (strip U) (split_on CHR '';'' [] s))
            | _ \<Rightarrow> Inl AttributeError)
      else Inr [])"

text \<open>The dictionary literal of lines 75 to 87, for a row that passed the filter.\<close>

definition build_component :: "unicode_db \<Rightarrow> row \<Rightarrow> py_error + component" where
  "build_component U r =
     (case py_float U (py_or (row_get r ''REP_AREA'' (PyInt 0)) (PyInt 0)) of
        Inl e \<Rightarrow> Inl e
      | Inr area \<Rightarrow>
          (case extract_iso U r of
             Inl e \<Rightarrow> Inl e
           | Inr codes \<Rightarrow>
               Inr \<lparr> wdpa_id = row_get r ''WDPAID'' (PyStr []),
                     wdpa_pid = row_get r ''WDPA_PID'' (PyStr []),
                     name = row_get r ''NAME'' (PyStr []),
                     name_orig = row_get r ''ORIG_NAME'' (PyStr []),
                     designation = row_get r ''DESIG_ENG'' (PyStr []),
                     iucn_category = row_get r ''IUCN_CAT'' (PyStr []),
                     status = row_get r ''STATUS'' (PyStr []),
                     status_year = row_get r ''STATUS_YR'' (PyStr []),
                     area_km2 = area,
                     iso_codes = codes,
                     marine = (row_get r ''MARINE'' (PyStr ''0'') \<noteq> PyStr ''0'') \<rparr>))"

text \<open>
  One turn of the loop of lines 59 to 91: \<open>Inr None\<close> is \<^verbatim>\<open>continue\<close>, \<open>Inr (Some c)\<close>
  the component to append, \<open>Inl e\<close> an exception.
\<close>

definition process_row :: "unicode_db \<Rightarrow> row \<Rightarrow> py_error + component option" where
  "process_row U r =
     (case py_in marker (row_get r ''DESIG_ENG'' (PyStr [])) of
        Inl e \<Rightarrow> Inl e
      | Inr False \<Rightarrow> Inr None
      | Inr True \<Rightarrow> (case build_component U r of Inl e \<Rightarrow> Inl e | Inr c \<Rightarrow> Inr (Some c)))"

fun extract_loop :: "unicode_db \<Rightarrow> row list \<Rightarrow> site_groups \<Rightarrow> py_error + site_groups" where
  "extract_loop U [] whs_sites = Inr whs_sites"
| "extract_loop U (r # rs) whs_sites =
     (case process_row U r of
        Inl e \<Rightarrow> Inl e
      | Inr None \<Rightarrow> extract_loop U rs whs_sites
      | Inr (Some c) \<Rightarrow> extract_loop U rs (group_append (name c) c whs_sites))"

text \<open>
  The file at \<^verbatim>\<open>csv_path\<close> is \<open>None\<close> when it does not exist, and its rows
  otherwise; both handlers of lines 93 to 98 raise again.
\<close>

definition extract_whs_components ::
  "unicode_db \<Rightarrow> row list option \<Rightarrow> py_error + site_groups" where
  "extract_whs_components U csv_file =
     (case csv_file of
        None \<Rightarrow> Inl FileNotFoundError
      | Some rows \<Rightarrow> extract_loop U rows [])"

section \<open>The registry\<close>

text \<open>
  \<^verbatim>\<open>sites.json\<close> is \<open>None\<close> when it does not exist, and otherwise the list of
  its entities, each with the three fields the matcher reads.
\<close>

definition load_unesco_sites :: "site list option \<Rightarrow> py_error + site list" where
  "load_unesco_sites sites_file =
     (case sites_file of
        None \<Rightarrow> Inl FileNotFoundError
      | Some sites \<Rightarrow> Inr sites)"

section \<open>The matcher\<close>

datatype strategy = Exact | Substring | IsoFirstWord

text \<open>
  The third strategy, lines 155 to 169, reached when the first two have failed:
  \<^verbatim>\<open>split()[0]\<close> raises \<^verbatim>\<open>IndexError\<close> on a name that is all white space.
\<close>

definition iso_first_word ::
  "unicode_db \<Rightarrow> string \<Rightarrow> component list \<Rightarrow> site \<Rightarrow> py_error + bool" where
  "iso_first_word U wdpa_name components s =
     (case components of
        [] \<Rightarrow> Inr False
      | c # _ \<Rightarrow>
          if iso_codes c = [] then Inr False
          else
            let wdpa_iso = set (map (lower U) (iso_codes c));
                unesco_iso = set (map (lower U) (isoCodes s))
            in if wdpa_iso \<inter> unesco_iso = {} then Inr False
               else
                 (case py_split U wdpa_name of
                    [] \<Rightarrow> Inl IndexError
                  | w1 # _ \<Rightarrow>
                      (case py_split U (en_name s) of
                         [] \<Rightarrow> Inl IndexError
                       | u1 # _ \<Rightarrow>
                           let wdpa_first = lower U w1; unesco_first = lower U u1
                           in Inr (wdpa_first = unesco_first
                                   \<or> str_contains wdpa_first (lower U (en_name s))
                                   \<or> str_contains unesco_first (lower U wdpa_name)))))"

text \<open>
  The body of the inner loop, lines 136 to 169, for one entity: the strategy that
  sets \<^verbatim>\<open>matched\<close> and breaks, or \<open>None\<close> when the loop goes on. A name that is
  \<^verbatim>\<open>None\<close> has no \<^verbatim>\<open>lower\<close>.
\<close>

definition match_site ::
  "unicode_db \<Rightarrow> pyval \<Rightarrow> component list \<Rightarrow> site \<Rightarrow> py_error + strategy option" where
  "match_site U wdpa_name components s =
     (case wdpa_name of
        PyStr w \<Rightarrow>
          let unesco_name = en_name s in
          if lower U w = lower U unesco_name then Inr (Some Exact)
          else
            let wdpa_lower = lower U w; unesco_lower = lower U unesco_name in
            if str_contains wdpa_lower unesco_lower \<or> str_contains unesco_lower wdpa_lower
            then Inr (Some Substring)
            else (case iso_first_word U w components s of
                    Inl e \<Rightarrow> Inl e
                  | Inr True \<Rightarrow> Inr (Some IsoFirstWord)
                  | Inr False \<Rightarrow> Inr None)
      | _ \<Rightarrow> Inl AttributeError)"

text \<open>The inner loop over the registry: the identifier of the first entity that matches.\<close>

fun scan_sites ::
  "unicode_db \<Rightarrow> pyval \<Rightarrow> component list \<Rightarrow> site list \<Rightarrow> py_error + string option" where
  "scan_sites U wdpa_name components [] = Inr None"
| "scan_sites U wdpa_name components (s # ss) =
     (case match_site U wdpa_name components s of
        Inl e \<Rightarrow> Inl e
      | Inr (Some t) \<Rightarrow> Inr (Some (idNumber s))
      | Inr None \<Rightarrow> scan_sites U wdpa_name components ss)"

text \<open>The outer loop, lines 132 to 172, on the state \<^verbatim>\<open>(mapping, unmatched)\<close>.\<close>

fun mapping_loop ::
  "unicode_db \<Rightarrow> site_groups \<Rightarrow> site list \<Rightarrow> (pyval, string) dict \<times> pyval list
     \<Rightarrow> py_error + (pyval, string) dict \<times> pyval list" where
  "mapping_loop U [] sites st = Inr st"
| "mapping_loop U ((wdpa_name, components) # rest) sites (mapping, unmatched) =
     (case scan_sites U wdpa_name components sites of
        Inl e \<Rightarrow> Inl e
      | Inr (Some uid) \<Rightarrow> mapping_loop U rest sites (dict_set wdpa_name uid mapping, unmatched)
      | Inr None \<Rightarrow> mapping_loop U rest sites (mapping, unmatched @ [wdpa_name]))"

definition create_unesco_mapping ::
  "unicode_db \<Rightarrow> site_groups \<Rightarrow> site list \<Rightarrow> py_error + (pyval, string) dict" where
  "create_unesco_mapping U whs_data unesco_sites =
     (case mapping_loop U whs_data unesco_sites ([], []) of
        Inl e \<Rightarrow> Inl e
      | Inr (mapping, unmatched) \<Rightarrow> Inr mapping)"

text \<open>The names the report of lines 174 to 183 lists.\<close>

definition unmatched_names ::
  "unicode_db \<Rightarrow> site_groups \<Rightarrow> site list \<Rightarrow> py_error + pyval list" where
  "unmatched_names U whs_data unesco_sites =
     (case mapping_loop U whs_data unesco_sites ([], []) of
        Inl e \<Rightarrow> Inl e
      | Inr (mapping, unmatched) \<Rightarrow> Inr unmatched)"

text \<open>
  The mapping and the unmatched list as the specification describes them, without the
  loops: an entity is accepted when one of the three strategies holds for it; a group gets
  one entry, with the identifier of the first entity of the registry that is accepted,
  or it is listed as unmatched when no entity is.
\<close>

definition accepts :: "unicode_db \<Rightarrow> pyval \<Rightarrow> component list \<Rightarrow> site \<Rightarrow> bool" where
  "accepts U w cs s = (case match_site U w cs s of Inr (Some t) \<Rightarrow> True | _ \<Rightarrow> False)"

definition first_accepted :: "unicode_db \<Rightarrow> pyval \<Rightarrow> component list \<Rightarrow> site list \<Rightarrow> string option" where
  "first_accepted U w cs sites = map_option idNumber (find (accepts U w cs) sites)"

fun matched_pairs :: "unicode_db \<Rightarrow> site_groups \<Rightarrow> site list \<Rightarrow> (pyval, string) dict" where
  "matched_pairs U [] sites = []"
| "matched_pairs U ((w, cs) # rest) sites =
     (case first_accepted U w cs sites of
        Some uid \<Rightarrow> (w, uid) # matched_pairs U rest sites
      | None \<Rightarrow> matched_pairs U rest sites)"

fun unmatched_of :: "unicode_db \<Rightarrow> site_groups \<Rightarrow> site list \<Rightarrow> pyval list" where
  "unmatched_of U [] sites = []"
| "unmatched_of U ((w, cs) # rest) sites =
     (case first_accepted U w cs sites of
        None \<Rightarrow> w # unmatched_of U rest sites
      | Some uid \<Rightarrow> unmatched_of U rest sites)"

section \<open>The orchestrator\<close>

text \<open>Step 4 of \<^verbatim>\<open>main\<close>, lines 221 to 229.\<close>

fun reorganize ::
  "site_groups \<Rightarrow> (pyval, string) dict \<Rightarrow> (string, component list) dict
     \<Rightarrow> (string, component list) dict" where
  "reorganize [] unesco_mapping components_by_id = components_by_id"
| "reorganize ((wdpa_name, components) # rest) unesco_mapping components_by_id =
     (case dict_get unesco_mapping wdpa_name of
        None \<Rightarrow> reorganize rest unesco_mapping components_by_id
      | Some unesco_id \<Rightarrow>
          if unesco_id \<noteq> [] \<and> length components > 1
          then reorganize rest unesco_mapping (dict_set unesco_id components components_by_id)
          else reorganize rest unesco_mapping components_by_id)"

text \<open>
  The two input files, and what a run leaves: the value \<^verbatim>\<open>main\<close> returns, which
  is the exit code of the process, and the content of each output file the run wrote.
\<close>

record files =
  wdpa_csv :: "row list option"
  unesco_json :: "site list option"

record outcome =
  exit_code :: nat
  components_json :: "(string, component list) dict option"
  mapping_json :: "(pyval, string) dict option"

definition failure :: outcome where
  "failure = \<lparr> exit_code = 1, components_json = None, mapping_json = None \<rparr>"

definition main :: "unicode_db \<Rightarrow> files \<Rightarrow> outcome" where
  "main U fs =
     (if wdpa_csv fs = None then failure
      else
        (case extract_whs_components U (wdpa_csv fs) of
           Inl e \<Rightarrow> failure
         | Inr whs_components \<Rightarrow>
             (case load_unesco_sites (unesco_json fs) of
                Inl e \<Rightarrow> failure
              | Inr unesco_sites \<Rightarrow>
                  (case create_unesco_mapping U whs_components unesco_sites of
                     Inl e \<Rightarrow> failure
                   | Inr unesco_mapping \<Rightarrow>
                       \<lparr> exit_code = 0,
                         components_json = Some (reorganize whs_components unesco_mapping []),
                         mapping_json = Some unesco_mapping \<rparr>))))"

section \<open>Example data\<close>

text \<open>A row of the WDPA file, with the columns the extractor reads.\<close>

definition example_row :: "string \<Rightarrow> string \<Rightarrow> string \<Rightarrow> string \<Rightarrow> string \<Rightarrow> row" where
  "example_row pid nm desig area iso3 =
     [''WDPAID'' \<mapsto> Text pid, ''WDPA_PID'' \<mapsto> Text pid, ''NAME'' \<mapsto> Text nm,
      ''ORIG_NAME'' \<mapsto> Text nm, ''DESIG_ENG'' \<mapsto> Text desig,
      ''IUCN_CAT'' \<mapsto> Text ''Not Applicable'', ''STATUS'' \<mapsto> Text ''Inscribed'',
      ''STATUS_YR'' \<mapsto> Text ''1987'', ''REP_AREA'' \<mapsto> Text area,
      ''ISO3'' \<mapsto> Text iso3, ''MARINE'' \<mapsto> Text ''0'']"

text \<open>The component of such a row when its area field is empty.\<close>

definition example_component :: "string \<Rightarrow> string \<Rightarrow> string \<Rightarrow> string list \<Rightarrow> component" where
  "example_component pid nm desig codes =
     \<lparr> wdpa_id = PyStr pid, wdpa_pid = PyStr pid, name = PyStr nm, name_orig = PyStr nm,
       designation = PyStr desig, iucn_category = PyStr ''Not Applicable'',
       status = PyStr ''Inscribed'', status_year = PyStr ''1987'',
       area_km2 = Float_of_int 0, iso_codes = codes, marine = False \<rparr>"

text \<open>
  The examples are ASCII text, for which no function looks at the database (lemmas
  \<open>lower_ascii\<close>, \<open>py_split_ascii\<close>, \<open>strip_ascii\<close> and \<open>is_float_literal_ascii\<close>). They are
  evaluated with the database that has no cased code point, no white space and no digit
  beyond ASCII; every other database gives them the same values.
\<close>

definition ascii_db :: unicode_db where
  "ascii_db =
     \<lparr> lower_u = map lower_char,
       split_u = split_ws [],
       strip_u = (\<lambda>s. rev (dropWhile isspace (rev (dropWhile isspace s)))),
       float_u = (\<lambda>s. floatvalue (rev (dropWhile c_isspace (rev (dropWhile c_isspace s))))) \<rparr>"

definition whs_desig :: string where
  "whs_desig = ''World Heritage Site (natural or mixed)''"

definition example_site :: "string \<Rightarrow> string \<Rightarrow> string list \<Rightarrow> site" where
  "example_site i nm codes = \<lparr> idNumber = i, en_name = nm, isoCodes = codes \<rparr>"

section \<open>Strings\<close>

text \<open>\<open>str_contains\<close> is containment as a contiguous substring.\<close>

lemma str_contains_iff:
  "str_contains needle s \<longleftrightarrow> (\<exists>ps ss. s = ps @ needle @ ss)"
proof (induction s)
  case Nil
  show ?case by auto
next
  case (Cons c cs)
  have "(\<exists>ps ss. c # cs = ps @ needle @ ss)
          \<longleftrightarrow> (\<exists>ss. c # cs = needle @ ss) \<or> (\<exists>ps ss. cs = ps @ needle @ ss)"
  proof
    assume "\<exists>ps ss. c # cs = ps @ needle @ ss"
    then obtain ps ss where h: "c # cs = ps @ needle @ ss" by blast
    show "(\<exists>ss. c # cs = needle @ ss) \<or> (\<exists>ps ss. cs = ps @ needle @ ss)"
    proof (cases ps)
      case Nil
      with h show ?thesis by auto
    next
      case (Cons p ps')
      with h have "cs = ps' @ needle @ ss" by simp
      then show ?thesis by blast
    qed
  next
    assume "(\<exists>ss. c # cs = needle @ ss) \<or> (\<exists>ps ss. cs = ps @ needle @ ss)"
    then show "\<exists>ps ss. c # cs = ps @ needle @ ss"
    proof
      assume "\<exists>ss. c # cs = needle @ ss"
      then obtain ss where "c # cs = [] @ needle @ ss" by auto
      then show ?thesis by blast
    next
      assume "\<exists>ps ss. cs = ps @ needle @ ss"
      then obtain ps ss where "c # cs = (c # ps) @ needle @ ss" by auto
      then show ?thesis by blast
    qed
  qed
  then show ?case using Cons.IH by (simp add: prefix_def)
qed

text \<open>On ASCII text the four text functions do not depend on the database.\<close>

lemma lower_ascii: "is_ascii s \<Longrightarrow> lower U s = map lower_char s"
  by (simp add: lower_def)

lemma lower_eq_Nil: "lower U s = [] \<longleftrightarrow> s = []"
  by (cases "is_ascii s") (auto simp: lower_def is_ascii_def)

lemma py_split_ascii: "is_ascii s \<Longrightarrow> py_split U s = split_ws [] s"
  by (simp add: py_split_def)

lemma strip_ascii:
  "is_ascii s \<Longrightarrow> strip U s = rev (dropWhile isspace (rev (dropWhile isspace s)))"
  by (simp add: strip_def)

lemma is_float_literal_ascii:
  "is_ascii s \<Longrightarrow>
   is_float_literal U s = floatvalue (rev (dropWhile c_isspace (rev (dropWhile c_isspace s))))"
  by (simp add: is_float_literal_def)

lemma lower_empty: "lower U [] = []"
  by (simp add: lower_def is_ascii_def)

section \<open>Dictionaries\<close>

lemma map_of_dict_set: "map_of (dict_set k v d) = (map_of d)(k \<mapsto> v)"
  by (induction d) (auto simp: fun_eq_iff)

lemma keys_dict_set: "fst ` set (dict_set k v d) = insert k (fst ` set d)"
  by (simp add: dom_map_of_conv_image_fst [symmetric] map_of_dict_set)

lemma distinct_dict_set: "distinct (map fst d) \<Longrightarrow> distinct (map fst (dict_set k v d))"
  by (induction d) (auto simp: keys_dict_set)

lemma dict_set_fresh: "k \<notin> fst ` set d \<Longrightarrow> dict_set k v d = d @ [(k, v)]"
  by (induction d) auto

lemma set_dict_set: "set (dict_set k v d) \<subseteq> insert (k, v) (set d)"
  by (induction d) (auto split: if_splits)

section \<open>Re-keying by identifier\<close>

lemma reorganize_append:
  "reorganize (xs @ ys) m acc = reorganize ys m (reorganize xs m acc)"
  by (induction xs m acc rule: reorganize.induct) (auto split: option.splits)

lemma reorganize_distinct:
  "distinct (map fst acc) \<Longrightarrow> distinct (map fst (reorganize whs m acc))"
  by (induction whs m acc rule: reorganize.induct)
     (auto split: option.splits simp: distinct_dict_set)

text \<open>An entry of the output was there before, or is a group stored by line 229.\<close>

lemma reorganize_entries:
  "(uid, cs) \<in> set (reorganize whs m acc) \<Longrightarrow>
     (uid, cs) \<in> set acc
     \<or> (1 < length cs \<and> uid \<noteq> [] \<and> (\<exists>w. (w, cs) \<in> set whs \<and> dict_get m w = Some uid))"
proof (induction whs m acc rule: reorganize.induct)
  case (1 m acc)
  then show ?case by simp
next
  case (2 w comps rest m acc)
  show ?case
  proof (cases "dict_get m w")
    case None
    with 2 show ?thesis by auto
  next
    case (Some u)
    show ?thesis
    proof (cases "u \<noteq> [] \<and> 1 < length comps")
      case True
      with 2 Some have "(uid, cs) \<in> set (dict_set u comps acc) \<or>
          (1 < length cs \<and> uid \<noteq> [] \<and> (\<exists>w. (w, cs) \<in> set rest \<and> dict_get m w = Some uid))"
        by simp
      then show ?thesis
        using set_dict_set [of u comps acc] True Some by auto
    next
      case False
      with 2 Some show ?thesis by auto
    qed
  qed
qed

lemma reorganize_untouched:
  "\<forall>(w, cs) \<in> set whs. \<not> (dict_get m w = Some uid \<and> 1 < length cs) \<Longrightarrow>
   map_of (reorganize whs m acc) uid = map_of acc uid"
  by (induction whs m acc rule: reorganize.induct)
     (auto split: option.splits simp: map_of_dict_set)

lemma reorganize_store:
  "dict_get m w = Some uid \<Longrightarrow> uid \<noteq> [] \<Longrightarrow> 1 < length cs \<Longrightarrow>
   dict_get (reorganize (pre @ [(w, cs)]) m acc) uid = Some cs"
  by (simp add: reorganize_append dict_get_def map_of_dict_set)

text \<open>
  Claim C3. Two groups \<open>n1\<close> and \<open>n2\<close>, the first earlier in the iteration order of the
  site groups, resolve through the mapping to the same identifier (a value that passes
  the test of line 225) and have more than one component each; no group after \<open>n2\<close> is
  stored under that identifier. Then the first group is stored under the identifier at
  its turn, and the output has under the identifier the components of \<open>n2\<close> and nothing
  else: the assignment of line 229 has replaced the components of \<open>n1\<close>.
\<close>

theorem later_group_overwrites:
  assumes "dict_get m n1 = Some uid" and "dict_get m n2 = Some uid" and "uid \<noteq> []"
    and "1 < length c1" and "1 < length c2"
    and "\<forall>(w, cs) \<in> set post. \<not> (dict_get m w = Some uid \<and> 1 < length cs)"
  shows "dict_get (reorganize (pre @ [(n1, c1)]) m []) uid = Some c1
       \<and> dict_get (reorganize (pre @ (n1, c1) # mid @ (n2, c2) # post) m []) uid = Some c2
       \<and> (\<forall>cs. (uid, cs) \<in> set (reorganize (pre @ (n1, c1) # mid @ (n2, c2) # post) m [])
               \<longleftrightarrow> cs = c2)"
proof -
  let ?whs = "pre @ (n1, c1) # mid @ (n2, c2) # post"
  let ?out = "reorganize ?whs m []"
  have first: "dict_get (reorganize (pre @ [(n1, c1)]) m []) uid = Some c1"
    using assms(1,3,4) by (rule reorganize_store)
  have "?whs = ((pre @ (n1, c1) # mid) @ [(n2, c2)]) @ post" by simp
  then have "?out = reorganize post m (reorganize ((pre @ (n1, c1) # mid) @ [(n2, c2)]) m [])"
    by (simp only: reorganize_append)
  then have "map_of ?out uid = map_of (reorganize ((pre @ (n1, c1) # mid) @ [(n2, c2)]) m []) uid"
    using reorganize_untouched [OF assms(6)] by simp
  also have "\<dots> = Some c2"
    using reorganize_store [OF assms(2,3,5), of "pre @ (n1, c1) # mid" "[]"]
    by (simp add: dict_get_def)
  finally have last: "map_of ?out uid = Some c2" .
  have "distinct (map fst ?out)" by (rule reorganize_distinct) simp
  then have "(uid, cs) \<in> set ?out \<longleftrightarrow> map_of ?out uid = Some cs" for cs
    by (simp add: map_of_eq_Some_iff)
  then have "\<forall>cs. (uid, cs) \<in> set ?out \<longleftrightarrow> cs = c2"
    using last by auto
  with first last show ?thesis by (simp add: dict_get_def)
qed

theorem later_group_overwrites_witness:
  "dict_get [(PyStr ''Wadden Sea'', ''1314''), (PyStr ''Petra'', ''326''),
             (PyStr ''The Wadden Sea'', ''1314'')] (PyStr ''Wadden Sea'') = Some ''1314''
   \<and> dict_get [(PyStr ''Wadden Sea'', ''1314''), (PyStr ''Petra'', ''326''),
             (PyStr ''The Wadden Sea'', ''1314'')] (PyStr ''The Wadden Sea'') = Some ''1314''
   \<and> dict_get
     (reorganize
        [(PyStr ''Wadden Sea'',
          [example_component ''1'' ''Wadden Sea'' whs_desig [''NLD''],
           example_component ''2'' ''Wadden Sea'' whs_desig [''DEU'']]),
         (PyStr ''Petra'', [example_component ''3'' ''Petra'' whs_desig [''JOR'']]),
         (PyStr ''The Wadden Sea'',
          [example_component ''4'' ''The Wadden Sea'' whs_desig [''DNK''],
           example_component ''5'' ''The Wadden Sea'' whs_desig [''DNK'']])]
        [(PyStr ''Wadden Sea'', ''1314''), (PyStr ''Petra'', ''326''),
         (PyStr ''The Wadden Sea'', ''1314'')] [])
     ''1314''
   = Some [example_component ''4'' ''The Wadden Sea'' whs_desig [''DNK''],
           example_component ''5'' ''The Wadden Sea'' whs_desig [''DNK'']]"
  using later_group_overwrites
    [of "[(PyStr ''Wadden Sea'', ''1314''), (PyStr ''Petra'', ''326''),
          (PyStr ''The Wadden Sea'', ''1314'')]"
        "PyStr ''Wadden Sea''" "''1314''" "PyStr ''The Wadden Sea''"
        "[example_component ''1'' ''Wadden Sea'' whs_desig [''NLD''],
          example_component ''2'' ''Wadden Sea'' whs_desig [''DEU'']]"
        "[example_component ''4'' ''The Wadden Sea'' whs_desig [''DNK''],
          example_component ''5'' ''The Wadden Sea'' whs_desig [''DNK'']]"
        "[]" "[]"
        "[(PyStr ''Petra'', [example_component ''3'' ''Petra'' whs_desig [''JOR'']])]"]
  by (simp add: dict_get_def)

text \<open>
  Claim C4. A group with exactly one component leaves no trace in the output keyed by
  identifier, whatever the mapping says about its name: the output is the one computed
  without the group, and no entry of the output holds the group's component list.
\<close>

theorem single_component_group_excluded:
  assumes "length cs = 1"
  shows "reorganize (pre @ (w, cs) # post) m [] = reorganize (pre @ post) m []
         \<and> (\<forall>uid. (uid, cs) \<notin> set (reorganize (pre @ (w, cs) # post) m []))"
proof
  show "reorganize (pre @ (w, cs) # post) m [] = reorganize (pre @ post) m []"
    using assms by (simp add: reorganize_append split: option.splits)
  show "\<forall>uid. (uid, cs) \<notin> set (reorganize (pre @ (w, cs) # post) m [])"
    using assms reorganize_entries [of _ cs "pre @ (w, cs) # post" m "[]"] by auto
qed

theorem single_component_group_excluded_witness:
  "length [example_component ''3'' ''Petra'' whs_desig [''JOR'']] = 1
   \<and> dict_get [(PyStr ''Petra'', ''326'')] (PyStr ''Petra'') = Some ''326''
   \<and> reorganize
     [(PyStr ''Petra'', [example_component ''3'' ''Petra'' whs_desig [''JOR'']])]
     [(PyStr ''Petra'', ''326'')] [] = []"
  using single_component_group_excluded
    [of "[example_component ''3'' ''Petra'' whs_desig [''JOR'']]" "[]" "PyStr ''Petra''" "[]"
        "[(PyStr ''Petra'', ''326'')]"]
  by (simp add: dict_get_def)

section \<open>The matcher's scan and mapping\<close>

lemma match_site_exact:
  "lower U w = lower U (en_name e) \<Longrightarrow> match_site U (PyStr w) cs e = Inr (Some Exact)"
  by (simp add: match_site_def)

lemma scan_sites_first:
  "\<forall>s \<in> set pre. match_site U w cs s = Inr None \<Longrightarrow> match_site U w cs e = Inr (Some t) \<Longrightarrow>
   scan_sites U w cs (pre @ e # post) = Inr (Some (idNumber e))"
  by (induction pre) auto

lemma scan_sites_Some_iff:
  "scan_sites U w cs sites = Inr (Some uid) \<longleftrightarrow>
     (\<exists>pre e post t. sites = pre @ e # post \<and> (\<forall>s \<in> set pre. match_site U w cs s = Inr None)
        \<and> match_site U w cs e = Inr (Some t) \<and> uid = idNumber e)"
proof
  show "scan_sites U w cs sites = Inr (Some uid) \<Longrightarrow>
     \<exists>pre e post t. sites = pre @ e # post \<and> (\<forall>s \<in> set pre. match_site U w cs s = Inr None)
        \<and> match_site U w cs e = Inr (Some t) \<and> uid = idNumber e"
  proof (induction sites)
    case Nil
    then show ?case by simp
  next
    case (Cons s ss)
    show ?case
    proof (cases "match_site U w cs s")
      case (Inl e)
      with Cons.prems show ?thesis by simp
    next
      case (Inr r)
      show ?thesis
      proof (cases r)
        case None
        with Inr Cons.prems have "scan_sites U w cs ss = Inr (Some uid)" by simp
        from Cons.IH [OF this] obtain pre e post t where
          h: "ss = pre @ e # post" "\<forall>s \<in> set pre. match_site U w cs s = Inr None"
             "match_site U w cs e = Inr (Some t)" "uid = idNumber e"
          by blast
        have "s # ss = (s # pre) @ e # post" using h(1) by simp
        moreover have "\<forall>x \<in> set (s # pre). match_site U w cs x = Inr None"
          using h(2) Inr None by simp
        ultimately show ?thesis using h(3,4) by blast
      next
        case (Some t)
        with Inr Cons.prems have "uid = idNumber s" by simp
        moreover have "s # ss = [] @ s # ss" by simp
        ultimately show ?thesis using Inr Some by (metis empty_iff set_empty2)
      qed
    qed
  qed
next
  assume "\<exists>pre e post t. sites = pre @ e # post \<and> (\<forall>s \<in> set pre. match_site U w cs s = Inr None)
        \<and> match_site U w cs e = Inr (Some t) \<and> uid = idNumber e"
  then show "scan_sites U w cs sites = Inr (Some uid)"
    using scan_sites_first by blast
qed

text \<open>A scan that returns gives the identifier of the first accepted entity.\<close>

lemma scan_sites_first_accepted:
  "scan_sites U w cs sites = Inr r \<Longrightarrow> first_accepted U w cs sites = r"
proof (induction sites)
  case Nil
  then show ?case by (simp add: first_accepted_def)
next
  case (Cons s ss)
  show ?case
  proof (cases "match_site U w cs s")
    case (Inl e)
    with Cons.prems show ?thesis by simp
  next
    case (Inr x)
    show ?thesis
    proof (cases x)
      case None
      with Inr Cons.prems have "scan_sites U w cs ss = Inr r" by simp
      from Cons.IH [OF this] show ?thesis
        using Inr None by (simp add: first_accepted_def accepts_def)
    next
      case (Some t)
      with Inr Cons.prems show ?thesis
        by (auto simp: first_accepted_def accepts_def)
    qed
  qed
qed

lemma mapping_loop_ok:
  "mapping_loop U whs sites st = Inr st' \<Longrightarrow> (w, cs) \<in> set whs \<Longrightarrow>
   \<exists>r. scan_sites U w cs sites = Inr r"
proof (induction whs arbitrary: st)
  case Nil
  then show ?case by simp
next
  case (Cons g rest)
  obtain w' cs' where g: "g = (w', cs')" by (cases g)
  obtain m0 u0 where st: "st = (m0, u0)" by (cases st)
  show ?case
  proof (cases "scan_sites U w' cs' sites")
    case (Inl e)
    with Cons.prems(1) g st show ?thesis by simp
  next
    case (Inr r)
    show ?thesis
    proof (cases "(w, cs) = (w', cs')")
      case True
      with Inr show ?thesis by auto
    next
      case False
      with Cons.prems(2) g have mem: "(w, cs) \<in> set rest" by auto
      show ?thesis
      proof (cases r)
        case None
        with Inr Cons.prems(1) g st
        have "mapping_loop U rest sites (m0, u0 @ [w']) = Inr st'" by simp
        from Cons.IH [OF this mem] show ?thesis .
      next
        case (Some uid)
        with Inr Cons.prems(1) g st
        have "mapping_loop U rest sites (dict_set w' uid m0, u0) = Inr st'" by simp
        from Cons.IH [OF this mem] show ?thesis .
      qed
    qed
  qed
qed

lemma matched_pairs_mem:
  "(w, uid) \<in> set (matched_pairs U whs sites) \<longleftrightarrow>
     (\<exists>cs. (w, cs) \<in> set whs \<and> first_accepted U w cs sites = Some uid)"
  by (induction U whs sites rule: matched_pairs.induct)
     (auto split: option.splits)

lemma matched_pairs_keys: "fst ` set (matched_pairs U whs sites) \<subseteq> fst ` set whs"
proof
  fix w
  assume "w \<in> fst ` set (matched_pairs U whs sites)"
  then obtain uid where "(w, uid) \<in> set (matched_pairs U whs sites)" by auto
  then obtain cs where "(w, cs) \<in> set whs" by (auto simp: matched_pairs_mem)
  then show "w \<in> fst ` set whs" by force
qed

lemma matched_pairs_distinct:
  "distinct (map fst whs) \<Longrightarrow> distinct (map fst (matched_pairs U whs sites))"
proof (induction U whs sites rule: matched_pairs.induct)
  case (1 U sites)
  then show ?case by simp
next
  case (2 U w cs rest sites)
  then have "w \<notin> fst ` set (matched_pairs U rest sites)"
    using matched_pairs_keys [of U rest sites] by auto
  with 2 show ?case by (auto split: option.splits)
qed

lemma unmatched_of_mem:
  "w \<in> set (unmatched_of U whs sites) \<longleftrightarrow>
     (\<exists>cs. (w, cs) \<in> set whs \<and> first_accepted U w cs sites = None)"
  by (induction U whs sites rule: unmatched_of.induct)
     (auto split: option.splits)

text \<open>
  The loop computes the two lists of the specification: no assignment of line 141, 150
  or 167 meets a key that is already in the mapping, so each one appends an entry.
\<close>

lemma mapping_loop_result:
  "mapping_loop U whs sites (m0, u0) = Inr (m, u) \<Longrightarrow> distinct (map fst whs) \<Longrightarrow>
   fst ` set whs \<inter> fst ` set m0 = {} \<Longrightarrow>
   m = m0 @ matched_pairs U whs sites \<and> u = u0 @ unmatched_of U whs sites"
proof (induction whs arbitrary: m0 u0)
  case Nil
  then show ?case by simp
next
  case (Cons g rest)
  obtain w cs where g: "g = (w, cs)" by (cases g)
  have fresh: "w \<notin> fst ` set m0" using Cons.prems(3) g by auto
  have dist: "distinct (map fst rest)" and wrest: "w \<notin> fst ` set rest"
    using Cons.prems(2) g by auto
  show ?case
  proof (cases "scan_sites U w cs sites")
    case (Inl e)
    with Cons.prems(1) g show ?thesis by simp
  next
    case (Inr r)
    note fa = scan_sites_first_accepted [OF Inr]
    show ?thesis
    proof (cases r)
      case None
      with Inr Cons.prems(1) g
      have "mapping_loop U rest sites (m0, u0 @ [w]) = Inr (m, u)" by simp
      moreover have "fst ` set rest \<inter> fst ` set m0 = {}" using Cons.prems(3) by auto
      ultimately have "m = m0 @ matched_pairs U rest sites
                       \<and> u = (u0 @ [w]) @ unmatched_of U rest sites"
        using Cons.IH dist by blast
      then show ?thesis using g fa None by simp
    next
      case (Some uid)
      with Inr Cons.prems(1) g fresh
      have "mapping_loop U rest sites (m0 @ [(w, uid)], u0) = Inr (m, u)"
        by (simp add: dict_set_fresh)
      moreover have "fst ` set rest \<inter> fst ` set (m0 @ [(w, uid)]) = {}"
        using Cons.prems(3) wrest by auto
      ultimately have "m = (m0 @ [(w, uid)]) @ matched_pairs U rest sites
                       \<and> u = u0 @ unmatched_of U rest sites"
        using Cons.IH dist by blast
      then show ?thesis using g fa Some by simp
    qed
  qed
qed

lemma create_unesco_mapping_result:
  assumes "create_unesco_mapping U whs sites = Inr m" and "distinct (map fst whs)"
  shows "m = matched_pairs U whs sites"
proof -
  from assms(1) obtain u where "mapping_loop U whs sites ([], []) = Inr (m, u)"
    by (auto simp: create_unesco_mapping_def split: sum.splits)
  from mapping_loop_result [OF this assms(2)] show ?thesis by simp
qed

lemma unmatched_names_result:
  assumes "unmatched_names U whs sites = Inr u" and "distinct (map fst whs)"
  shows "u = unmatched_of U whs sites"
proof -
  from assms(1) obtain m where "mapping_loop U whs sites ([], []) = Inr (m, u)"
    by (auto simp: unmatched_names_def split: sum.splits)
  from mapping_loop_result [OF this assms(2)] show ?thesis by simp
qed

lemma create_unesco_mapping_ok:
  assumes "create_unesco_mapping U whs sites = Inr m" and "(w, cs) \<in> set whs"
  shows "\<exists>r. scan_sites U w cs sites = Inr r"
proof -
  from assms(1) obtain st where "mapping_loop U whs sites ([], []) = Inr st"
    by (auto simp: create_unesco_mapping_def split: sum.splits)
  from mapping_loop_ok [OF this assms(2)] show ?thesis .
qed

lemma mapping_lookup:
  assumes "create_unesco_mapping U whs sites = Inr m" and "distinct (map fst whs)"
  shows "dict_get m w = Some uid \<longleftrightarrow>
           (\<exists>cs. (w, cs) \<in> set whs \<and> scan_sites U w cs sites = Inr (Some uid))"
proof -
  have m: "m = matched_pairs U whs sites"
    using assms by (rule create_unesco_mapping_result)
  have "distinct (map fst m)" unfolding m using assms(2) by (rule matched_pairs_distinct)
  then have "dict_get m w = Some uid \<longleftrightarrow> (w, uid) \<in> set m"
    by (simp add: dict_get_def map_of_eq_Some_iff)
  also have "\<dots> \<longleftrightarrow> (\<exists>cs. (w, cs) \<in> set whs \<and> first_accepted U w cs sites = Some uid)"
    by (simp add: m matched_pairs_mem)
  also have "\<dots> \<longleftrightarrow> (\<exists>cs. (w, cs) \<in> set whs \<and> scan_sites U w cs sites = Inr (Some uid))"
  proof
    assume "\<exists>cs. (w, cs) \<in> set whs \<and> first_accepted U w cs sites = Some uid"
    then obtain cs where cs: "(w, cs) \<in> set whs" "first_accepted U w cs sites = Some uid"
      by blast
    obtain r where r: "scan_sites U w cs sites = Inr r"
      using create_unesco_mapping_ok [OF assms(1) cs(1)] by blast
    with cs(2) have "r = Some uid"
      using scan_sites_first_accepted [OF r] by simp
    with r cs(1) show "\<exists>cs. (w, cs) \<in> set whs \<and> scan_sites U w cs sites = Inr (Some uid)"
      by blast
  next
    assume "\<exists>cs. (w, cs) \<in> set whs \<and> scan_sites U w cs sites = Inr (Some uid)"
    then show "\<exists>cs. (w, cs) \<in> set whs \<and> first_accepted U w cs sites = Some uid"
      using scan_sites_first_accepted by blast
  qed
  finally show ?thesis .
qed

text \<open>
  Claim C1, as amended. When the group name equals, case ignored, the display name of an
  entity, and no entity before it in registry order matches the group by any strategy,
  the exact strategy matches at that entity and the mapping gives the group name that
  entity's identifier.
\<close>

theorem exact_match_wins_when_first:
  assumes "create_unesco_mapping U whs (pre @ e # post) = Inr m" and "distinct (map fst whs)"
    and "(PyStr w, cs) \<in> set whs" and "lower U w = lower U (en_name e)"
    and "\<forall>s \<in> set pre. match_site U (PyStr w) cs s = Inr None"
  shows "match_site U (PyStr w) cs e = Inr (Some Exact)
         \<and> dict_get m (PyStr w) = Some (idNumber e)"
proof -
  have ex: "match_site U (PyStr w) cs e = Inr (Some Exact)"
    using assms(4) by (rule match_site_exact)
  have "scan_sites U (PyStr w) cs (pre @ e # post) = Inr (Some (idNumber e))"
    using assms(5) ex by (rule scan_sites_first)
  then have "dict_get m (PyStr w) = Some (idNumber e)"
    using mapping_lookup [OF assms(1,2)] assms(3) by blast
  with ex show ?thesis by simp
qed

theorem exact_match_wins_when_first_witness:
  "lower ascii_db ''Yellowstone'' = lower ascii_db (en_name (example_site ''9001'' ''YELLOWSTONE'' [''USA'']))
   \<and> create_unesco_mapping ascii_db
        [(PyStr ''Yellowstone'', [example_component ''7'' ''Yellowstone'' whs_desig [''USA'']])]
        [example_site ''326'' ''Petra'' [''JOR''],
         example_site ''9001'' ''YELLOWSTONE'' [''USA''],
         example_site ''28'' ''Yellowstone National Park'' [''USA'']]
      = Inr [(PyStr ''Yellowstone'', ''9001'')]
   \<and> dict_get [(PyStr ''Yellowstone'', ''9001'')] (PyStr ''Yellowstone'') = Some ''9001''"
proof -
  let ?c = "example_component ''7'' ''Yellowstone'' whs_desig [''USA'']"
  let ?e = "example_site ''9001'' ''YELLOWSTONE'' [''USA'']"
  let ?pre = "[example_site ''326'' ''Petra'' [''JOR'']]"
  let ?post = "[example_site ''28'' ''Yellowstone National Park'' [''USA'']]"
  have run: "create_unesco_mapping ascii_db [(PyStr ''Yellowstone'', [?c])] (?pre @ ?e # ?post)
               = Inr [(PyStr ''Yellowstone'', ''9001'')]"
    by code_simp
  have low: "lower ascii_db ''Yellowstone'' = lower ascii_db (en_name ?e)"
    by code_simp
  have none: "\<forall>s \<in> set ?pre. match_site ascii_db (PyStr ''Yellowstone'') [?c] s = Inr None"
    by code_simp
  have "dict_get [(PyStr ''Yellowstone'', ''9001'')] (PyStr ''Yellowstone'') = Some (idNumber ?e)"
    using exact_match_wins_when_first [OF run _ _ low none] by simp
  then show ?thesis using run low by (simp add: example_site_def)
qed

text \<open>The run of the counterexample below gives the same mapping with every database.\<close>

lemma later_exact_match_loses:
  "create_unesco_mapping U
     [(PyStr ''Yellowstone'', [example_component ''7'' ''Yellowstone'' whs_desig [''USA'']])]
     [example_site ''28'' ''Yellowstone National Park'' [''USA''],
      example_site ''9001'' ''Yellowstone'' [''USA'']]
   = Inr [(PyStr ''Yellowstone'', ''28'')]"
  by code_simp

text \<open>
  The claim as stated fails: the group name \<open>Yellowstone\<close> equals the name of the second
  entity and is a proper substring of the name of the first; the scan stops at the first
  entity, on the substring strategy, and the mapping gives its identifier.
\<close>

theorem exact_match_position_counterexample:
  "lower ascii_db ''Yellowstone'' = lower ascii_db (en_name (example_site ''9001'' ''Yellowstone'' [''USA'']))
   \<and> lower ascii_db ''Yellowstone'' \<noteq> lower ascii_db (en_name (example_site ''28'' ''Yellowstone National Park'' [''USA'']))
   \<and> str_contains (lower ascii_db ''Yellowstone'')
        (lower ascii_db (en_name (example_site ''28'' ''Yellowstone National Park'' [''USA''])))
   \<and> match_site ascii_db (PyStr ''Yellowstone'')
        [example_component ''7'' ''Yellowstone'' whs_desig [''USA'']]
        (example_site ''28'' ''Yellowstone National Park'' [''USA'']) = Inr (Some Substring)
   \<and> create_unesco_mapping ascii_db
        [(PyStr ''Yellowstone'', [example_component ''7'' ''Yellowstone'' whs_desig [''USA'']])]
        [example_site ''28'' ''Yellowstone National Park'' [''USA''],
         example_site ''9001'' ''Yellowstone'' [''USA'']]
      = Inr [(PyStr ''Yellowstone'', ''28'')]"
  by code_simp

text \<open>
  Claim C6. When every component of a group has an empty list of ISO codes, the third
  strategy is not attempted for the group: it neither matches nor raises, against any
  entity, and the scan of the registry is the one of a group without components, which
  only the first two strategies decide.
\<close>

theorem iso_strategy_needs_iso_codes:
  assumes "\<forall>c \<in> set components. iso_codes c = []"
  shows "iso_first_word U w components s = Inr False
         \<and> match_site U wdpa_name components s \<noteq> Inr (Some IsoFirstWord)
         \<and> match_site U wdpa_name components s = match_site U wdpa_name [] s
         \<and> scan_sites U wdpa_name components sites = scan_sites U wdpa_name [] sites"
proof -
  have off: "iso_first_word U v components x = Inr False" for v x
    using assms by (cases components) (simp_all add: iso_first_word_def)
  have nil: "iso_first_word U v [] x = Inr False" for v x
    by (simp add: iso_first_word_def)
  have same: "match_site U wdpa_name components x = match_site U wdpa_name [] x" for x
    by (cases wdpa_name) (simp_all add: match_site_def off nil Let_def cong: if_cong)
  have "match_site U wdpa_name [] s \<noteq> Inr (Some IsoFirstWord)"
    by (cases wdpa_name) (simp_all add: match_site_def nil Let_def cong: if_cong)
  moreover have "scan_sites U wdpa_name components sites = scan_sites U wdpa_name [] sites"
    by (induction sites) (simp_all add: same cong: sum.case_cong option.case_cong)
  ultimately show ?thesis using off same by simp
qed

theorem iso_strategy_needs_iso_codes_witness:
  "match_site ascii_db (PyStr ''Kakadu Park'')
     [example_component ''7'' ''Kakadu Park'' whs_desig [],
      example_component ''8'' ''Kakadu Park'' whs_desig []]
     (example_site ''147'' ''Kakadu National Park'' [''AUS'']) = Inr None
   \<and> match_site ascii_db (PyStr ''Kakadu Park'')
     [example_component ''7'' ''Kakadu Park'' whs_desig [''AUS''],
      example_component ''8'' ''Kakadu Park'' whs_desig []]
     (example_site ''147'' ''Kakadu National Park'' [''AUS'']) = Inr (Some IsoFirstWord)"
proof -
  let ?cs = "[example_component ''7'' ''Kakadu Park'' whs_desig [],
              example_component ''8'' ''Kakadu Park'' whs_desig []]"
  let ?s = "example_site ''147'' ''Kakadu National Park'' [''AUS'']"
  have empty: "\<forall>c \<in> set ?cs. iso_codes c = []"
    by (simp add: example_component_def)
  have "match_site ascii_db (PyStr ''Kakadu Park'') [] ?s = Inr None"
    by code_simp
  then have "match_site ascii_db (PyStr ''Kakadu Park'') ?cs ?s = Inr None"
    using iso_strategy_needs_iso_codes
      [OF empty, where U = ascii_db and w = "[]" and s = ?s
         and wdpa_name = "PyStr ''Kakadu Park''" and sites = "[]"]
    by simp
  moreover have "match_site ascii_db (PyStr ''Kakadu Park'')
     [example_component ''7'' ''Kakadu Park'' whs_desig [''AUS''],
      example_component ''8'' ''Kakadu Park'' whs_desig []] ?s = Inr (Some IsoFirstWord)"
    by code_simp
  ultimately show ?thesis by simp
qed

text \<open>
  Claim C7. The mapping the matcher returns has one entry at most for a name, and every
  key of it is a key of the site groups. A name has the identifier \<open>uid\<close> in the mapping
  exactly when the registry splits into the entities before an entity \<open>e\<close>, none of which
  any strategy accepts for the group, the entity \<open>e\<close>, which a strategy accepts and whose
  identifier is \<open>uid\<close>, and the rest, which plays no part: the first success wins. The
  mapping is the list \<open>matched_pairs\<close>, one entry for each group that has an accepted
  entity, in the order of the groups: no assignment replaces an earlier one. The witness
  has a group that two entities accept and a group that the mapping leaves out.
\<close>

theorem mapping_keys_invariant:
  assumes "create_unesco_mapping U whs sites = Inr m" and "distinct (map fst whs)"
  shows "distinct (map fst m)
         \<and> set (map fst m) \<subseteq> set (map fst whs)
         \<and> m = matched_pairs U whs sites
         \<and> (\<forall>w uid. dict_get m w = Some uid \<longleftrightarrow>
               (\<exists>cs. (w, cs) \<in> set whs \<and> scan_sites U w cs sites = Inr (Some uid)))
         \<and> (\<forall>w uid. dict_get m w = Some uid \<longleftrightarrow>
               (\<exists>cs pre e post t. (w, cs) \<in> set whs \<and> sites = pre @ e # post
                  \<and> (\<forall>s \<in> set pre. match_site U w cs s = Inr None)
                  \<and> match_site U w cs e = Inr (Some t) \<and> uid = idNumber e))"
proof -
  have m: "m = matched_pairs U whs sites"
    using assms by (rule create_unesco_mapping_result)
  have d: "distinct (map fst m)"
    unfolding m using assms(2) by (rule matched_pairs_distinct)
  have k: "set (map fst m) \<subseteq> set (map fst whs)"
    unfolding m using matched_pairs_keys [of U whs sites] by simp
  have l: "dict_get m w = Some uid \<longleftrightarrow>
             (\<exists>cs. (w, cs) \<in> set whs \<and> scan_sites U w cs sites = Inr (Some uid))" for w uid
    using assms by (rule mapping_lookup)
  have f: "dict_get m w = Some uid \<longleftrightarrow>
             (\<exists>cs pre e post t. (w, cs) \<in> set whs \<and> sites = pre @ e # post
                \<and> (\<forall>s \<in> set pre. match_site U w cs s = Inr None)
                \<and> match_site U w cs e = Inr (Some t) \<and> uid = idNumber e)" for w uid
    unfolding l scan_sites_Some_iff by blast
  show ?thesis using m d k l f by blast
qed

theorem mapping_keys_invariant_witness:
  "create_unesco_mapping ascii_db
     [(PyStr ''Yellowstone'', [example_component ''7'' ''Yellowstone'' whs_desig [''USA'']]),
      (PyStr ''Atlantis'', [example_component ''4'' ''Atlantis'' whs_desig [''GRC'']])]
     [example_site ''326'' ''Petra'' [''JOR''],
      example_site ''28'' ''Yellowstone National Park'' [''USA''],
      example_site ''9001'' ''Yellowstone'' [''USA'']]
   = Inr [(PyStr ''Yellowstone'', ''28'')]
   \<and> distinct (map fst [(PyStr ''Yellowstone'', ''28'')])
   \<and> set (map fst [(PyStr ''Yellowstone'', ''28'')]) \<subseteq> {PyStr ''Yellowstone'', PyStr ''Atlantis''}
   \<and> PyStr ''Atlantis'' \<notin> set (map fst [(PyStr ''Yellowstone'', ''28'')])
   \<and> match_site ascii_db (PyStr ''Yellowstone'')
        [example_component ''7'' ''Yellowstone'' whs_desig [''USA'']]
        (example_site ''326'' ''Petra'' [''JOR'']) = Inr None
   \<and> match_site ascii_db (PyStr ''Yellowstone'')
        [example_component ''7'' ''Yellowstone'' whs_desig [''USA'']]
        (example_site ''28'' ''Yellowstone National Park'' [''USA'']) = Inr (Some Substring)
   \<and> match_site ascii_db (PyStr ''Yellowstone'')
        [example_component ''7'' ''Yellowstone'' whs_desig [''USA'']]
        (example_site ''9001'' ''Yellowstone'' [''USA'']) = Inr (Some Exact)
   \<and> dict_get [(PyStr ''Yellowstone'', ''28'')] (PyStr ''Yellowstone'')
        = Some (idNumber (example_site ''28'' ''Yellowstone National Park'' [''USA'']))"
proof -
  let ?c = "[example_component ''7'' ''Yellowstone'' whs_desig [''USA'']]"
  let ?whs = "[(PyStr ''Yellowstone'', ?c),
      (PyStr ''Atlantis'', [example_component ''4'' ''Atlantis'' whs_desig [''GRC'']])]"
  let ?p = "example_site ''326'' ''Petra'' [''JOR'']"
  let ?y = "example_site ''28'' ''Yellowstone National Park'' [''USA'']"
  let ?z = "example_site ''9001'' ''Yellowstone'' [''USA'']"
  have run: "create_unesco_mapping ascii_db ?whs ([?p] @ ?y # [?z])
               = Inr [(PyStr ''Yellowstone'', ''28'')]"
    by code_simp
  have d: "distinct (map fst ?whs)" by simp
  have mp: "match_site ascii_db (PyStr ''Yellowstone'') ?c ?p = Inr None" by code_simp
  have my: "match_site ascii_db (PyStr ''Yellowstone'') ?c ?y = Inr (Some Substring)" by code_simp
  have mz: "match_site ascii_db (PyStr ''Yellowstone'') ?c ?z = Inr (Some Exact)" by code_simp
  note inv = mapping_keys_invariant [OF run d]
  have a: "distinct (map fst [(PyStr ''Yellowstone'', ''28'')])"
    using inv by (rule conjunct1)
  have b: "set (map fst [(PyStr ''Yellowstone'', ''28'')]) \<subseteq> set (map fst ?whs)"
    using inv by (rule conjunct1 [OF conjunct2])
  have first: "\<forall>w uid. dict_get [(PyStr ''Yellowstone'', ''28'')] w = Some uid \<longleftrightarrow>
               (\<exists>cs pre e post t. (w, cs) \<in> set ?whs \<and> [?p] @ ?y # [?z] = pre @ e # post
                  \<and> (\<forall>s \<in> set pre. match_site ascii_db w cs s = Inr None)
                  \<and> match_site ascii_db w cs e = Inr (Some t) \<and> uid = idNumber e)"
    using inv by (rule conjunct2 [OF conjunct2 [OF conjunct2 [OF conjunct2]]])
  have "\<exists>cs pre e post t. (PyStr ''Yellowstone'', cs) \<in> set ?whs
          \<and> [?p] @ ?y # [?z] = pre @ e # post
          \<and> (\<forall>s \<in> set pre. match_site ascii_db (PyStr ''Yellowstone'') cs s = Inr None)
          \<and> match_site ascii_db (PyStr ''Yellowstone'') cs e = Inr (Some t)
          \<and> idNumber ?y = idNumber e"
    using mp my by (intro exI [of _ ?c] exI [of _ "[?p]"] exI [of _ ?y] exI [of _ "[?z]"]
        exI [of _ Substring]) simp
  then have e: "dict_get [(PyStr ''Yellowstone'', ''28'')] (PyStr ''Yellowstone'')
                  = Some (idNumber ?y)"
    using first by blast
  show ?thesis
    using a b run mp my mz e by simp
qed

text \<open>
  Claim C10. For a group whose name is the empty string and a registry that is not
  empty, the substring test holds at the first entity of the registry, since the empty
  string is in every name; the scan stops there, the mapping gives the group the first
  entity's identifier and the group is not in the list of unmatched names. The strategy
  that sets the match is the substring one unless the first entity's name is empty too,
  when the equality test before it holds.
\<close>

theorem empty_name_matches_first_entity:
  assumes "create_unesco_mapping U whs (s # ss) = Inr m"
    and "unmatched_names U whs (s # ss) = Inr u"
    and "distinct (map fst whs)" and "(PyStr [], cs) \<in> set whs"
  shows "str_contains (lower U []) (lower U (en_name s))
         \<and> scan_sites U (PyStr []) cs (s # ss) = Inr (Some (idNumber s))
         \<and> dict_get m (PyStr []) = Some (idNumber s)
         \<and> PyStr [] \<notin> set u
         \<and> (en_name s \<noteq> [] \<longrightarrow> match_site U (PyStr []) cs s = Inr (Some Substring))"
proof -
  have sub: "str_contains (lower U []) x" for x
    by (cases x) (simp_all add: lower_empty)
  have hit: "match_site U (PyStr []) c s = Inr (Some Exact)
             \<or> match_site U (PyStr []) c s = Inr (Some Substring)" for c
    using sub by (simp add: match_site_def Let_def)
  have scan: "scan_sites U (PyStr []) c (s # ss) = Inr (Some (idNumber s))" for c
    using hit [of c] by auto
  have "dict_get m (PyStr []) = Some (idNumber s)"
    using mapping_lookup [OF assms(1,3)] assms(4) scan by blast
  moreover have "PyStr [] \<notin> set u"
  proof
    assume "PyStr [] \<in> set u"
    then obtain c where "first_accepted U (PyStr []) c (s # ss) = None"
      using unmatched_names_result [OF assms(2,3)] by (auto simp: unmatched_of_mem)
    then show False using scan_sites_first_accepted [OF scan [of c]] by simp
  qed
  moreover have "en_name s \<noteq> [] \<longrightarrow> match_site U (PyStr []) cs s = Inr (Some Substring)"
    using sub lower_eq_Nil [of U "en_name s"]
    by (auto simp: match_site_def Let_def lower_empty)
  ultimately show ?thesis using sub scan by simp
qed

theorem empty_name_matches_first_entity_witness:
  "create_unesco_mapping ascii_db
     [(PyStr ''Petra'', [example_component ''3'' ''Petra'' whs_desig [''JOR'']]),
      (PyStr [], [example_component ''4'' [] whs_desig [''GRC'']])]
     [example_site ''28'' ''Yellowstone National Park'' [''USA''],
      example_site ''326'' ''Petra'' [''JOR'']]
   = Inr [(PyStr ''Petra'', ''326''), (PyStr [], ''28'')]
   \<and> unmatched_names ascii_db
     [(PyStr ''Petra'', [example_component ''3'' ''Petra'' whs_desig [''JOR'']]),
      (PyStr [], [example_component ''4'' [] whs_desig [''GRC'']])]
     [example_site ''28'' ''Yellowstone National Park'' [''USA''],
      example_site ''326'' ''Petra'' [''JOR'']]
   = Inr []
   \<and> match_site ascii_db (PyStr []) [example_component ''4'' [] whs_desig [''GRC'']]
        (example_site ''28'' ''Yellowstone National Park'' [''USA'']) = Inr (Some Substring)"
proof -
  let ?whs = "[(PyStr ''Petra'', [example_component ''3'' ''Petra'' whs_desig [''JOR'']]),
      (PyStr [], [example_component ''4'' [] whs_desig [''GRC'']])]"
  let ?s = "example_site ''28'' ''Yellowstone National Park'' [''USA'']"
  let ?ss = "[example_site ''326'' ''Petra'' [''JOR'']]"
  have run: "create_unesco_mapping ascii_db ?whs (?s # ?ss) = Inr [(PyStr ''Petra'', ''326''), (PyStr [], ''28'')]"
    by code_simp
  have un: "unmatched_names ascii_db ?whs (?s # ?ss) = Inr []"
    by code_simp
  have d: "distinct (map fst ?whs)" by simp
  have "en_name ?s \<noteq> []" by (simp add: example_site_def)
  then have "match_site ascii_db (PyStr []) [example_component ''4'' [] whs_desig [''GRC'']] ?s
               = Inr (Some Substring)"
    using empty_name_matches_first_entity [OF run un d, of "[example_component ''4'' [] whs_desig [''GRC'']]"]
    by simp
  then show ?thesis using run un by simp
qed

section \<open>The extractor's groups\<close>

lemma group_append_union:
  "\<Union> (set ` snd ` set (group_append k v d)) = insert v (\<Union> (set ` snd ` set d))"
  by (induction k v d rule: group_append.induct) auto

lemma members_union:
  "(\<exists>n cs. (n, cs) \<in> set d \<and> c \<in> set cs) \<longleftrightarrow> c \<in> \<Union> (set ` snd ` set d)"
  by force

lemma group_append_members:
  "(\<exists>n cs. (n, cs) \<in> set (group_append k v d) \<and> c \<in> set cs)
     \<longleftrightarrow> c = v \<or> (\<exists>n cs. (n, cs) \<in> set d \<and> c \<in> set cs)"
  unfolding members_union group_append_union by simp

lemma group_append_fst:
  "map fst (group_append k v d) = (if k \<in> fst ` set d then map fst d else map fst d @ [k])"
  by (induction k v d rule: group_append.induct) (auto simp: rev_image_eqI)

lemma group_append_distinct:
  "distinct (map fst d) \<Longrightarrow> distinct (map fst (group_append k v d))"
  by (simp add: group_append_fst)

lemma extract_loop_distinct:
  "extract_loop U rows acc = Inr g \<Longrightarrow> distinct (map fst acc) \<Longrightarrow> distinct (map fst g)"
  by (induction U rows acc rule: extract_loop.induct)
     (auto split: sum.splits option.splits simp: group_append_distinct)

text \<open>The site groups the extractor returns are a dictionary: their keys are distinct.\<close>

lemma extract_distinct:
  "extract_whs_components U csv_file = Inr g \<Longrightarrow> distinct (map fst g)"
  by (cases csv_file) (auto simp: extract_whs_components_def dest: extract_loop_distinct)

lemma extract_loop_ok:
  "extract_loop U rows acc = Inr g \<Longrightarrow> r \<in> set rows \<Longrightarrow> \<exists>x. process_row U r = Inr x"
  by (induction U rows acc rule: extract_loop.induct)
     (auto split: sum.splits option.splits)

lemma extract_loop_members:
  "extract_loop U rows acc = Inr g \<Longrightarrow>
   (\<exists>n cs. (n, cs) \<in> set g \<and> c \<in> set cs)
     \<longleftrightarrow> (\<exists>n cs. (n, cs) \<in> set acc \<and> c \<in> set cs)
          \<or> (\<exists>r \<in> set rows. process_row U r = Inr (Some c))"
proof (induction U rows acc rule: extract_loop.induct)
  case (1 U acc)
  then show ?case by simp
next
  case (2 U r rs acc)
  show ?case
  proof (cases "process_row U r")
    case (Inl e)
    with 2(3) show ?thesis by simp
  next
    case (Inr x)
    show ?thesis
    proof (cases x)
      case None
      with Inr 2(3) have "extract_loop U rs acc = Inr g" by simp
      from 2(1) [OF Inr None this] show ?thesis using Inr None by simp
    next
      case (Some c')
      with Inr 2(3) have "extract_loop U rs (group_append (name c') c' acc) = Inr g" by simp
      from 2(2) [OF Inr Some this] show ?thesis
        using Inr Some by (auto simp: group_append_members)
    qed
  qed
qed

lemma build_component_designation:
  "build_component U r = Inr c \<Longrightarrow> designation c = row_get r ''DESIG_ENG'' (PyStr [])"
  by (auto simp: build_component_def split: sum.splits)

lemma process_row_Some:
  "process_row U r = Inr (Some c) \<longleftrightarrow>
     py_in marker (row_get r ''DESIG_ENG'' (PyStr [])) = Inr True \<and> build_component U r = Inr c"
  by (auto simp: process_row_def split: sum.splits bool.splits)

lemma py_in_True:
  "py_in needle v = Inr True \<longleftrightarrow> (\<exists>d. v = PyStr d \<and> str_contains needle d)"
  by (cases v) auto

lemma reorganize_from_groups:
  "(uid, cs) \<in> set (reorganize whs m []) \<Longrightarrow> \<exists>w. (w, cs) \<in> set whs"
  using reorganize_entries [of uid cs whs m "[]"] by auto

text \<open>
  Claim C5. When the extractor returns, a row of the input has its component in some
  site group exactly when its designation field is a string that contains
  \<^verbatim>\<open>World Heritage\<close>, as a substring and with this case; and the groups of the output
  keyed by identifier are site groups, so a row whose designation does not contain the
  marker has no component there either.
\<close>

theorem row_in_group_iff_marker:
  assumes "extract_whs_components U (Some rows) = Inr groups" and "r \<in> set rows"
  shows "((\<exists>n cs c. (n, cs) \<in> set groups \<and> c \<in> set cs \<and> build_component U r = Inr c)
           \<longleftrightarrow> (\<exists>d. row_get r ''DESIG_ENG'' (PyStr []) = PyStr d
                     \<and> str_contains ''World Heritage'' d))
         \<and> ((\<exists>uid cs c. (uid, cs) \<in> set (reorganize groups m []) \<and> c \<in> set cs
                 \<and> build_component U r = Inr c)
              \<longrightarrow> (\<exists>d. row_get r ''DESIG_ENG'' (PyStr []) = PyStr d
                     \<and> str_contains ''World Heritage'' d))"
proof -
  let ?in = "\<exists>n cs c. (n, cs) \<in> set groups \<and> c \<in> set cs \<and> build_component U r = Inr c"
  let ?mk = "\<exists>d. row_get r ''DESIG_ENG'' (PyStr []) = PyStr d \<and> str_contains ''World Heritage'' d"
  have loop: "extract_loop U rows [] = Inr groups"
    using assms(1) by (simp add: extract_whs_components_def)
  have mem: "(\<exists>n cs. (n, cs) \<in> set groups \<and> c \<in> set cs)
               \<longleftrightarrow> (\<exists>r' \<in> set rows. process_row U r' = Inr (Some c))" for c
    using extract_loop_members [OF loop, of c] by simp
  have fwd: "?mk" if "?in"
  proof -
    from that obtain n cs c where c: "(n, cs) \<in> set groups" "c \<in> set cs" "build_component U r = Inr c"
      by blast
    then obtain r' where r': "r' \<in> set rows" "process_row U r' = Inr (Some c)"
      using mem [of c] by blast
    then obtain d where d: "row_get r' ''DESIG_ENG'' (PyStr []) = PyStr d" "str_contains marker d"
      by (auto simp: process_row_Some py_in_True)
    have "designation c = PyStr d"
      using r'(2) d(1) build_component_designation [of U r' c] by (simp add: process_row_Some)
    then have "row_get r ''DESIG_ENG'' (PyStr []) = PyStr d"
      using build_component_designation [OF c(3)] by simp
    with d(2) show ?thesis by (simp add: marker_def)
  qed
  have bwd: "?in" if "?mk"
  proof -
    from that have hit: "py_in marker (row_get r ''DESIG_ENG'' (PyStr [])) = Inr True"
      by (auto simp: py_in_True marker_def)
    obtain x where x: "process_row U r = Inr x"
      using extract_loop_ok [OF loop assms(2)] by blast
    with hit obtain c where c: "build_component U r = Inr c" "process_row U r = Inr (Some c)"
      by (auto simp: process_row_def split: sum.splits)
    then have "\<exists>n cs. (n, cs) \<in> set groups \<and> c \<in> set cs"
      using mem [of c] assms(2) by blast
    with c(1) show ?thesis by blast
  qed
  have out: "?in" if "\<exists>uid cs c. (uid, cs) \<in> set (reorganize groups m []) \<and> c \<in> set cs
                 \<and> build_component U r = Inr c"
    using that reorganize_from_groups by blast
  show ?thesis using fwd bwd out by blast
qed

theorem row_in_group_iff_marker_witness:
  "extract_whs_components ascii_db
     (Some [example_row ''1'' ''Petra'' ''UNESCO World Heritage Site'' [] ''JOR'',
            example_row ''2'' ''Yosemite'' ''National Park'' ''12.5'' ''USA'',
            example_row ''3'' ''Petra'' ''world heritage site'' [] ''JOR''])
   = Inr [(PyStr ''Petra'', [example_component ''1'' ''Petra'' ''UNESCO World Heritage Site'' [''JOR'']])]
   \<and> (\<exists>n cs c.
         (n, cs) \<in> set [(PyStr ''Petra'',
                          [example_component ''1'' ''Petra'' ''UNESCO World Heritage Site'' [''JOR'']])]
         \<and> c \<in> set cs
         \<and> build_component ascii_db (example_row ''1'' ''Petra'' ''UNESCO World Heritage Site'' [] ''JOR'') = Inr c)
   \<and> \<not> (\<exists>n cs c.
         (n, cs) \<in> set [(PyStr ''Petra'',
                          [example_component ''1'' ''Petra'' ''UNESCO World Heritage Site'' [''JOR'']])]
         \<and> c \<in> set cs
         \<and> build_component ascii_db (example_row ''3'' ''Petra'' ''world heritage site'' [] ''JOR'') = Inr c)"
proof -
  let ?rf = "example_row ''1'' ''Petra'' ''UNESCO World Heritage Site'' [] ''JOR''"
  let ?rx = "example_row ''2'' ''Yosemite'' ''National Park'' ''12.5'' ''USA''"
  let ?rl = "example_row ''3'' ''Petra'' ''world heritage site'' [] ''JOR''"
  let ?g = "[(PyStr ''Petra'', [example_component ''1'' ''Petra'' ''UNESCO World Heritage Site'' [''JOR'']])]"
  have run: "extract_whs_components ascii_db (Some [?rf, ?rx, ?rl]) = Inr ?g"
    by code_simp
  have d1: "row_get ?rf ''DESIG_ENG'' (PyStr []) = PyStr ''UNESCO World Heritage Site''"
    by code_simp
  have m1: "str_contains ''World Heritage'' ''UNESCO World Heritage Site''"
    by code_simp
  have d3: "row_get ?rl ''DESIG_ENG'' (PyStr []) = PyStr ''world heritage site''"
    by code_simp
  have m3: "\<not> str_contains ''World Heritage'' ''world heritage site''"
    by code_simp
  have "\<exists>n cs c. (n, cs) \<in> set ?g \<and> c \<in> set cs \<and> build_component ascii_db ?rf = Inr c"
    using row_in_group_iff_marker [OF run, of ?rf "[]"] d1 m1 by simp
  moreover have "\<not> (\<exists>n cs c. (n, cs) \<in> set ?g \<and> c \<in> set cs \<and> build_component ascii_db ?rl = Inr c)"
    using row_in_group_iff_marker [OF run, of ?rl "[]"] d3 m3 by simp
  ultimately show ?thesis using run by simp
qed

section \<open>The area field\<close>

lemma extract_iso_ok: "\<exists>codes. extract_iso U r = Inr codes"
  by (cases "r ''ISO3''") (auto simp: extract_iso_def row_get_def split: cell.splits)

lemma float_default: "py_float U (PyInt 0) = Inr (Float_of_int 0)"
  by simp

lemma build_component_area:
  "py_float U (py_or (row_get r ''REP_AREA'' (PyInt 0)) (PyInt 0)) = Inr a \<Longrightarrow>
   \<exists>c. build_component U r = Inr c \<and> area_km2 c = a"
  using extract_iso_ok [of U r] by (auto simp: build_component_def)

lemma build_component_area_error:
  "py_float U (py_or (row_get r ''REP_AREA'' (PyInt 0)) (PyInt 0)) = Inl e \<Longrightarrow>
   build_component U r = Inl e"
  by (simp add: build_component_def)

text \<open>
  Claim C2, as amended. For a row that passes the designation filter: when the area
  column is absent, the field is absent or the field is the empty string, the component
  is built without an exception and its area is \<^verbatim>\<open>float(0)\<close>; a field that is not
  empty goes to \<^verbatim>\<open>float\<close> as it is, which gives the float of a float literal and
  raises \<^verbatim>\<open>ValueError\<close> on any other text.
\<close>

theorem area_defaults_when_missing_or_empty:
  assumes "py_in marker (row_get r ''DESIG_ENG'' (PyStr [])) = Inr True"
  shows "(r ''REP_AREA'' = None \<or> r ''REP_AREA'' = Some NoValue \<or> r ''REP_AREA'' = Some (Text [])
            \<longrightarrow> (\<exists>c. process_row U r = Inr (Some c) \<and> area_km2 c = Float_of_int 0))
         \<and> (\<forall>s. r ''REP_AREA'' = Some (Text s) \<and> s \<noteq> [] \<and> is_float_literal U s
            \<longrightarrow> (\<exists>c. process_row U r = Inr (Some c) \<and> area_km2 c = Float_of_str s))
         \<and> (\<forall>s. r ''REP_AREA'' = Some (Text s) \<and> s \<noteq> [] \<and> \<not> is_float_literal U s
            \<longrightarrow> process_row U r = Inl ValueError)"
proof (intro conjI allI impI)
  assume "r ''REP_AREA'' = None \<or> r ''REP_AREA'' = Some NoValue \<or> r ''REP_AREA'' = Some (Text [])"
  then have "py_or (row_get r ''REP_AREA'' (PyInt 0)) (PyInt 0) = PyInt 0"
    by (auto simp: row_get_def py_or_def)
  then have "py_float U (py_or (row_get r ''REP_AREA'' (PyInt 0)) (PyInt 0)) = Inr (Float_of_int 0)"
    by (simp only: float_default)
  from build_component_area [OF this] show "\<exists>c. process_row U r = Inr (Some c) \<and> area_km2 c = Float_of_int 0"
    using assms by (auto simp: process_row_def)
next
  fix s
  assume "r ''REP_AREA'' = Some (Text s) \<and> s \<noteq> [] \<and> is_float_literal U s"
  then have "py_float U (py_or (row_get r ''REP_AREA'' (PyInt 0)) (PyInt 0)) = Inr (Float_of_str s)"
    by (simp add: row_get_def py_or_def)
  from build_component_area [OF this] show "\<exists>c. process_row U r = Inr (Some c) \<and> area_km2 c = Float_of_str s"
    using assms by (auto simp: process_row_def)
next
  fix s
  assume "r ''REP_AREA'' = Some (Text s) \<and> s \<noteq> [] \<and> \<not> is_float_literal U s"
  then have "py_float U (py_or (row_get r ''REP_AREA'' (PyInt 0)) (PyInt 0)) = Inl ValueError"
    by (simp add: row_get_def py_or_def)
  from build_component_area_error [OF this] show "process_row U r = Inl ValueError"
    using assms by (simp add: process_row_def)
qed

theorem area_defaults_when_missing_or_empty_witness:
  "py_in marker (row_get (example_row ''1'' ''Petra'' whs_desig [] []) ''DESIG_ENG'' (PyStr [])) = Inr True
   \<and> example_row ''1'' ''Petra'' whs_desig [] [] ''REP_AREA'' = Some (Text [])
   \<and> process_row ascii_db (example_row ''1'' ''Petra'' whs_desig [] [])
       = Inr (Some (example_component ''1'' ''Petra'' whs_desig []))
   \<and> (\<exists>c. process_row ascii_db (example_row ''1'' ''Petra'' whs_desig [] []) = Inr (Some c)
          \<and> area_km2 c = Float_of_int 0)
   \<and> (\<exists>c. process_row ascii_db ((example_row ''1'' ''Petra'' whs_desig [] [])(''REP_AREA'' := None)) = Inr (Some c)
          \<and> area_km2 c = Float_of_int 0)
   \<and> (\<exists>c. process_row ascii_db (example_row ''1'' ''Petra'' whs_desig ''1.5e3'' []) = Inr (Some c)
          \<and> area_km2 c = Float_of_str ''1.5e3'')
   \<and> process_row ascii_db (example_row ''1'' ''Petra'' whs_desig ''12,5'' []) = Inl ValueError"
proof -
  let ?r = "example_row ''1'' ''Petra'' whs_desig [] []"
  let ?rn = "(example_row ''1'' ''Petra'' whs_desig [] [])(''REP_AREA'' := None)"
  let ?rf = "example_row ''1'' ''Petra'' whs_desig ''1.5e3'' []"
  let ?rx = "example_row ''1'' ''Petra'' whs_desig ''12,5'' []"
  have f: "py_in marker (row_get ?r ''DESIG_ENG'' (PyStr [])) = Inr True" by code_simp
  have f0: "py_in marker (row_get ?rn ''DESIG_ENG'' (PyStr [])) = Inr True" by code_simp
  have f1: "py_in marker (row_get ?rf ''DESIG_ENG'' (PyStr [])) = Inr True" by code_simp
  have f2: "py_in marker (row_get ?rx ''DESIG_ENG'' (PyStr [])) = Inr True" by code_simp
  have a: "?r ''REP_AREA'' = Some (Text [])" by (simp add: example_row_def)
  have a0: "?rn ''REP_AREA'' = None" by simp
  have a1: "?rf ''REP_AREA'' = Some (Text ''1.5e3'') \<and> ''1.5e3'' \<noteq> [] \<and> is_float_literal ascii_db ''1.5e3''"
    by code_simp
  have a2: "?rx ''REP_AREA'' = Some (Text ''12,5'') \<and> ''12,5'' \<noteq> [] \<and> \<not> is_float_literal ascii_db ''12,5''"
    by code_simp
  have run: "process_row ascii_db ?r = Inr (Some (example_component ''1'' ''Petra'' whs_desig []))"
    by code_simp
  have "\<exists>c. process_row ascii_db ?r = Inr (Some c) \<and> area_km2 c = Float_of_int 0"
    using area_defaults_when_missing_or_empty [OF f] a by blast
  moreover have "\<exists>c. process_row ascii_db ?rn = Inr (Some c) \<and> area_km2 c = Float_of_int 0"
    using area_defaults_when_missing_or_empty [OF f0] a0 by blast
  moreover have "\<exists>c. process_row ascii_db ?rf = Inr (Some c) \<and> area_km2 c = Float_of_str ''1.5e3''"
    using area_defaults_when_missing_or_empty [OF f1] a1 by blast
  moreover have "process_row ascii_db ?rx = Inl ValueError"
    using area_defaults_when_missing_or_empty [OF f2] a2 by blast
  ultimately show ?thesis using f a run by simp
qed

text \<open>The row of the counterexample below raises with every database.\<close>

lemma invalid_area_raises:
  "process_row U (example_row ''1'' ''Petra'' whs_desig ''n/a'' ''JOR'') = Inl ValueError"
  by code_simp

text \<open>
  The claim as stated fails on an area field that is not a number: the row passes the
  filter, \<^verbatim>\<open>float('n/a')\<close> raises \<^verbatim>\<open>ValueError\<close>, the extractor raises it again
  and the run ends with exit code 1 and no output.
\<close>

theorem invalid_area_counterexample:
  "py_in marker (row_get (example_row ''1'' ''Petra'' whs_desig ''n/a'' ''JOR'') ''DESIG_ENG'' (PyStr []))
     = Inr True
   \<and> build_component ascii_db (example_row ''1'' ''Petra'' whs_desig ''n/a'' ''JOR'') = Inl ValueError
   \<and> extract_whs_components ascii_db (Some [example_row ''1'' ''Petra'' whs_desig ''n/a'' ''JOR''])
       = Inl ValueError
   \<and> main ascii_db \<lparr> wdpa_csv = Some [example_row ''1'' ''Petra'' whs_desig ''n/a'' ''JOR''],
             unesco_json = Some [example_site ''326'' ''Petra'' [''JOR'']] \<rparr>
       = \<lparr> exit_code = 1, components_json = None, mapping_json = None \<rparr>"
  by code_simp

section \<open>The exit code\<close>

text \<open>
  Claim C9. The value \<^verbatim>\<open>main\<close> returns is 0 or 1. When the CSV file exists, the
  extractor returns, the registry file exists and the matcher returns, the run writes
  both output files and returns 0; in every other case it writes nothing and returns 1:
  when the CSV file or the registry file is missing, and when the extractor or the
  matcher raises. So the value is 0 exactly when all stages succeed.
\<close>

theorem exit_code_cases:
  "(exit_code (main U fs) = 0 \<or> exit_code (main U fs) = 1)
   \<and> (\<forall>rows whs sites m.
         wdpa_csv fs = Some rows \<and> extract_whs_components U (Some rows) = Inr whs
         \<and> unesco_json fs = Some sites \<and> create_unesco_mapping U whs sites = Inr m
         \<longrightarrow> main U fs = \<lparr> exit_code = 0,
                          components_json = Some (reorganize whs m []),
                          mapping_json = Some m \<rparr>)
   \<and> (exit_code (main U fs) = 0 \<longleftrightarrow>
        (\<exists>rows whs sites m.
           wdpa_csv fs = Some rows \<and> extract_whs_components U (Some rows) = Inr whs
           \<and> unesco_json fs = Some sites \<and> create_unesco_mapping U whs sites = Inr m))
   \<and> (exit_code (main U fs) \<noteq> 0 \<longrightarrow>
        main U fs = \<lparr> exit_code = 1, components_json = None, mapping_json = None \<rparr>)
   \<and> (wdpa_csv fs = None \<or> unesco_json fs = None \<longrightarrow> exit_code (main U fs) = 1)
   \<and> ((\<exists>e. extract_whs_components U (wdpa_csv fs) = Inl e) \<longrightarrow> exit_code (main U fs) = 1)
   \<and> ((\<exists>whs sites e. extract_whs_components U (wdpa_csv fs) = Inr whs
          \<and> load_unesco_sites (unesco_json fs) = Inr sites
          \<and> create_unesco_mapping U whs sites = Inl e) \<longrightarrow> exit_code (main U fs) = 1)"
proof (cases "wdpa_csv fs")
  case None
  then show ?thesis
    by (simp add: main_def failure_def extract_whs_components_def)
next
  case csv: (Some rows)
  show ?thesis
  proof (cases "extract_loop U rows []")
    case (Inl e)
    with csv show ?thesis
      by (simp add: main_def failure_def extract_whs_components_def)
  next
    case ex: (Inr whs)
    show ?thesis
    proof (cases "unesco_json fs")
      case None
      with csv ex show ?thesis
        by (simp add: main_def failure_def extract_whs_components_def load_unesco_sites_def)
    next
      case js: (Some sites)
      show ?thesis
      proof (cases "create_unesco_mapping U whs sites")
        case (Inl e)
        with csv ex js show ?thesis
          by (simp add: main_def failure_def extract_whs_components_def load_unesco_sites_def)
      next
        case (Inr m)
        with csv ex js show ?thesis
          by (simp add: main_def failure_def extract_whs_components_def load_unesco_sites_def)
      qed
    qed
  qed
qed

theorem exit_code_cases_witness:
  "main ascii_db \<lparr> wdpa_csv = None, unesco_json = Some [example_site ''326'' ''Petra'' [''JOR'']] \<rparr>
     = \<lparr> exit_code = 1, components_json = None, mapping_json = None \<rparr>
   \<and> exit_code (main ascii_db \<lparr> wdpa_csv = Some [example_row ''1'' ''Petra'' whs_desig [] ''JOR''],
                        unesco_json = None \<rparr>) = 1
   \<and> exit_code (main ascii_db \<lparr> wdpa_csv = Some [example_row ''1'' ''Petra'' whs_desig ''n/a'' ''JOR''],
                        unesco_json = Some [example_site ''326'' ''Petra'' [''JOR'']] \<rparr>) = 1
   \<and> exit_code (main ascii_db \<lparr> wdpa_csv = Some [example_row ''1'' '' '' whs_desig [] ''JOR''],
                        unesco_json = Some [example_site ''326'' ''Petra'' [''JOR'']] \<rparr>) = 1
   \<and> main ascii_db
        \<lparr> wdpa_csv = Some [example_row ''1'' ''Petra'' whs_desig [] ''JOR'',
                           example_row ''2'' ''Petra'' whs_desig [] ''JOR''],
          unesco_json = Some [example_site ''326'' ''Petra'' [''JOR'']] \<rparr>
       = \<lparr> exit_code = 0,
           components_json =
             Some [(''326'', [example_component ''1'' ''Petra'' whs_desig [''JOR''],
                             example_component ''2'' ''Petra'' whs_desig [''JOR'']])],
           mapping_json = Some [(PyStr ''Petra'', ''326'')] \<rparr>"
proof -
  let ?reg = "[example_site ''326'' ''Petra'' [''JOR'']]"
  let ?fa = "\<lparr> wdpa_csv = None, unesco_json = Some ?reg \<rparr>"
  let ?fb = "\<lparr> wdpa_csv = Some [example_row ''1'' ''Petra'' whs_desig [] ''JOR''], unesco_json = None \<rparr>"
  let ?fc = "\<lparr> wdpa_csv = Some [example_row ''1'' ''Petra'' whs_desig ''n/a'' ''JOR''],
               unesco_json = Some ?reg \<rparr>"
  let ?fd = "\<lparr> wdpa_csv = Some [example_row ''1'' '' '' whs_desig [] ''JOR''], unesco_json = Some ?reg \<rparr>"
  let ?rows = "[example_row ''1'' ''Petra'' whs_desig [] ''JOR'',
                example_row ''2'' ''Petra'' whs_desig [] ''JOR'']"
  let ?fe = "\<lparr> wdpa_csv = Some ?rows, unesco_json = Some ?reg \<rparr>"
  let ?whs = "[(PyStr ''Petra'', [example_component ''1'' ''Petra'' whs_desig [''JOR''],
                                  example_component ''2'' ''Petra'' whs_desig [''JOR'']])]"
  have "exit_code (main ascii_db ?fa) = 1"
    using exit_code_cases [of ascii_db ?fa] by simp
  then have e1: "main ascii_db ?fa = \<lparr> exit_code = 1, components_json = None, mapping_json = None \<rparr>"
    using exit_code_cases [of ascii_db ?fa] by simp
  have e2: "exit_code (main ascii_db ?fb) = 1"
    using exit_code_cases [of ascii_db ?fb] by simp
  have "extract_whs_components ascii_db (wdpa_csv ?fc) = Inl ValueError" by code_simp
  then have e3: "exit_code (main ascii_db ?fc) = 1"
    using exit_code_cases [of ascii_db ?fc] by blast
  have "extract_whs_components ascii_db (wdpa_csv ?fd)
          = Inr [(PyStr '' '', [example_component ''1'' '' '' whs_desig [''JOR'']])]
        \<and> load_unesco_sites (unesco_json ?fd) = Inr ?reg
        \<and> create_unesco_mapping ascii_db
             [(PyStr '' '', [example_component ''1'' '' '' whs_desig [''JOR'']])] ?reg
            = Inl IndexError"
    by code_simp
  then have e4: "exit_code (main ascii_db ?fd) = 1"
    using exit_code_cases [of ascii_db ?fd] by blast
  have x: "extract_whs_components ascii_db (Some ?rows) = Inr ?whs" by code_simp
  have y: "create_unesco_mapping ascii_db ?whs ?reg = Inr [(PyStr ''Petra'', ''326'')]" by code_simp
  have z: "reorganize ?whs [(PyStr ''Petra'', ''326'')] [] = [(''326'', snd (hd ?whs))]" by code_simp
  have "main ascii_db ?fe = \<lparr> exit_code = 0,
          components_json = Some (reorganize ?whs [(PyStr ''Petra'', ''326'')] []),
          mapping_json = Some [(PyStr ''Petra'', ''326'')] \<rparr>"
    using exit_code_cases [of ascii_db ?fe] x y by simp
  then have e5: "main ascii_db ?fe = \<lparr> exit_code = 0,
          components_json = Some [(''326'', snd (hd ?whs))],
          mapping_json = Some [(PyStr ''Petra'', ''326'')] \<rparr>"
    by (simp only: z)
  show ?thesis using e1 e2 e3 e4 e5 by simp
qed

end
